theory Spec2Isabelle
  imports Main
begin

section \<open>Common JavaScript values\<close>

text \<open>
  Exceptions of the JavaScript code are values: a \<open>TypeError\<close> is what reading a
  property of \<open>undefined\<close> raises, an \<open>AssertionError\<close> is a failed
  \<open>assert(...)\<close>, \<open>InvalidClassName\<close> is the
  \<open>Error("Invalid class name specified")\<close> of \<open>_register\<close>, and
  \<open>NodeIdSyntax\<close> is whatever the node id parser raises on a malformed string.
\<close>

datatype error = TypeError | AssertionError | InvalidClassName | NodeIdSyntax

text \<open>
  A JavaScript number as far as this code needs it: an integer or \<open>NaN\<close>
  (\<open>parseInt\<close> returns nothing else; the rounding of integers beyond
  \<open>2 ^ 53\<close> is not modelled). \<open>_.isFinite\<close> holds of \<open>Num n\<close> and not of
  \<open>NaN\<close>.
\<close>

datatype jsnum = Num int | NaN

subsection \<open>Reading a property of a plain object\<close>

text \<open>
  A JavaScript object used as a dictionary is a finite map of the properties it has of
  its own, and it answers a name it has no property for with what it inherits from
  \<open>Object.prototype\<close>, if anything: \<open>obj["constructor"]\<close> of an empty object is a
  function. \<open>js_get\<close> is the read \<open>obj[k]\<close>; its parameter \<open>inherited\<close> tells
  which names an object with no property of its own answers with an inherited value
  (a function or an object, which is truthy and is no node).
  \<open>object_prototype_name\<close> are the names \<open>Object.prototype\<close> defines by itself.
  Writing under the name \<open>__proto__\<close> replaces the prototype instead of adding a
  property; the model files a node under that name as under any other, so the
  statements that read an index are for address spaces whose indices have no such key.
\<close>

datatype 'a property = Own 'a | Inherited | Missing

definition js_get :: "(string \<Rightarrow> bool) \<Rightarrow> (string \<rightharpoonup> 'a) \<Rightarrow> string \<Rightarrow> 'a property" where
  "js_get inherited obj k =
     (case obj k of Some v \<Rightarrow> Own v | None \<Rightarrow> if inherited k then Inherited else Missing)"

definition object_prototype_names :: "string list" where
  "object_prototype_names =
     [''constructor'', ''toString'', ''toLocaleString'', ''valueOf'', ''hasOwnProperty'',
      ''isPrototypeOf'', ''propertyIsEnumerable'', ''__proto__'', ''__defineGetter__'',
      ''__defineSetter__'', ''__lookupGetter__'', ''__lookupSetter__'']"

definition object_prototype_name :: "string \<Rightarrow> bool" where
  "object_prototype_name k = (k \<in> set object_prototype_names)"

subsection \<open>String helpers: \<open>split\<close> and \<open>parseInt\<close>\<close>

text \<open>
  \<open>s.split(sep)\<close> for a one-character separator: every occurrence of the
  separator ends a piece, so the empty string gives one empty piece.
\<close>

fun split_from :: "char \<Rightarrow> string \<Rightarrow> string \<Rightarrow> string list" where
  "split_from sep cur [] = [cur]"
| "split_from sep cur (c # cs) =
     (if c = sep then cur # split_from sep [] cs else split_from sep (cur @ [c]) cs)"

definition str_split :: "string \<Rightarrow> char \<Rightarrow> string list" where
  "str_split s sep = split_from sep [] s"

definition is_space :: "char \<Rightarrow> bool" where
  "is_space c = (c \<in> set [CHR '' '', CHR 0x09, CHR 0x0A, CHR 0x0B, CHR 0x0C, CHR 0x0D])"

definition digit_val :: "char \<Rightarrow> nat option" where
  "digit_val c =
     (let k = (of_char c :: nat) in
      if 48 \<le> k \<and> k \<le> 57 then Some (k - 48)
      else if 97 \<le> k \<and> k \<le> 102 then Some (k - 87)
      else if 65 \<le> k \<and> k \<le> 70 then Some (k - 55)
      else None)"

definition is_digit :: "nat \<Rightarrow> char \<Rightarrow> bool" where
  "is_digit radix c = (case digit_val c of None \<Rightarrow> False | Some d \<Rightarrow> d < radix)"

definition digits_val :: "nat \<Rightarrow> string \<Rightarrow> nat" where
  "digits_val radix ds = foldl (\<lambda>acc c. acc * radix + (case digit_val c of None \<Rightarrow> 0 | Some d \<Rightarrow> d)) 0 ds"

text \<open>
  \<open>parseInt(s)\<close> with no radix: leading (ASCII) white space is skipped, a sign is read,
  a \<open>0x\<close> prefix selects base 16, and the longest run of digits is the value; no
  digit at all gives \<open>NaN\<close>.
\<close>

definition parseInt :: "string \<Rightarrow> jsnum" where
  "parseInt s =
     (let s1 = dropWhile is_space s;
          neg = (take 1 s1 = ''-'');
          s2 = (if take 1 s1 = ''-'' \<or> take 1 s1 = ''+'' then drop 1 s1 else s1);
          hex = (take 2 s2 = ''0x'' \<or> take 2 s2 = ''0X'');
          radix = (if hex then 16 else 10);
          s3 = (if hex then drop 2 s2 else s2);
          ds = takeWhile (is_digit radix) s3
      in if ds = [] then NaN
         else Num (if neg then - int (digits_val radix ds) else int (digits_val radix ds)))"

section \<open>The address space\<close>

subsection \<open>Node ids, names and nodes\<close>

datatype Identifier = Numeric nat | String string | Guid string | Opaque string

record NodeId =
  namespace :: nat
  ident :: Identifier

text \<open>
  Modelled from the spec: \<open>makeNodeId\<close> lives in \<open>datamodel/nodeid\<close>, which
  is not among the sources; \<open>makeNodeId(84)\<close> is the numeric node id \<open>i=84\<close> of
  namespace 0.
\<close>

definition makeNodeId :: "nat \<Rightarrow> NodeId" where
  "makeNodeId v = \<lparr>namespace = 0, ident = Numeric v\<rparr>"

definition rootFolderId :: NodeId where
  "rootFolderId = makeNodeId 84"

text \<open>An argument documented as \<open>{NodeId|string}\<close>.\<close>

datatype NodeRef = RefString string | RefNodeId NodeId

record QualifiedName =
  namespaceIndex :: jsnum
  name :: "string option"

record RelativePathElement =
  referenceTypeId :: NodeId
  isInverse :: bool
  includeSubtypes :: bool
  targetName :: "QualifiedName option"

record BrowsePath =
  startingNode :: NodeId
  elements :: "RelativePathElement list"

datatype NodeClass =
  Object | Variable | Method | ObjectType | VariableType | ReferenceType | DataType | View

text \<open>
  \<open>Reference\<close> of \<open>reference.js\<close>: the browse name of a reference type, the node id
  of the target and the direction. It does not hold the target's name.
\<close>

record Reference =
  ref_referenceType :: string
  ref_nodeId :: NodeId
  ref_isForward :: bool

text \<open>
  A node as the address space sees it. \<open>inverseName\<close> is the \<open>inverseName.text\<close>
  of a reference type (\<open>None\<close> when the text is missing); \<open>references\<close> are the
  node's own references.
\<close>

record BaseNode =
  nodeId :: NodeId
  browseName :: string
  nodeClass :: NodeClass
  inverseName :: "string option"
  references :: "Reference list"

text \<open>
  The indices of \<open>AddressSpace\<close> are JavaScript objects used as dictionaries.
  \<open>nodeid_index\<close> is keyed by \<open>nodeId.toString()\<close>, the canonical form of a node id,
  so the model keys it by the node id itself; a canonical form contains \<open>=\<close> and is
  never a name an object inherits, so reading this index is a map lookup. The indices
  keyed by names are read with \<open>js_get\<close>. \<open>aliases\<close> is read after a
  \<open>hasOwnProperty\<close> test, a map lookup as long as no alias is itself called
  \<open>hasOwnProperty\<close>.
\<close>

record AddressSpace =
  nodeid_index :: "NodeId \<rightharpoonup> BaseNode"
  aliases :: "string \<rightharpoonup> NodeId"
  objectTypeMap :: "string \<rightharpoonup> BaseNode"
  objectMap :: "string \<rightharpoonup> BaseNode"
  variableTypeMap :: "string \<rightharpoonup> BaseNode"
  referenceTypeMap :: "string \<rightharpoonup> BaseNode"
  referenceTypeMapInv :: "string \<rightharpoonup> BaseNode"
  dataTypeMap :: "string \<rightharpoonup> BaseNode"

definition new_AddressSpace :: AddressSpace where
  "new_AddressSpace =
     \<lparr>nodeid_index = Map.empty, aliases = Map.empty, objectTypeMap = Map.empty,
      objectMap = Map.empty, variableTypeMap = Map.empty, referenceTypeMap = Map.empty,
      referenceTypeMapInv = Map.empty, dataTypeMap = Map.empty\<rparr>"

definition add_alias :: "AddressSpace \<Rightarrow> string \<Rightarrow> NodeId \<Rightarrow> AddressSpace" where
  "add_alias sp alias_name nid = sp\<lparr>aliases := (aliases sp)(alias_name \<mapsto> nid)\<rparr>"

subsection \<open>Resolving node ids and finding nodes\<close>

text \<open>
  The generic \<open>resolveNodeId\<close> of \<open>datamodel/nodeid\<close> is not among the sources.
  It returns a \<open>NodeId\<close> argument as it is and parses a string; the parser is the
  parameter \<open>rn\<close> of everything below, and may fail.
\<close>

definition resolveNodeId :: "(string \<Rightarrow> error + NodeId) \<Rightarrow> NodeRef \<Rightarrow> error + NodeId" where
  "resolveNodeId rn nodeid = (case nodeid of RefNodeId n \<Rightarrow> Inr n | RefString s \<Rightarrow> rn s)"

definition AddressSpace_resolveNodeId ::
  "(string \<Rightarrow> error + NodeId) \<Rightarrow> AddressSpace \<Rightarrow> NodeRef \<Rightarrow> error + NodeId" where
  "AddressSpace_resolveNodeId rn sp nodeid =
     (case nodeid of
        RefString s \<Rightarrow>
          (case aliases sp s of Some n \<Rightarrow> Inr n | None \<Rightarrow> resolveNodeId rn nodeid)
      | RefNodeId n \<Rightarrow> resolveNodeId rn nodeid)"

definition findObject ::
  "(string \<Rightarrow> error + NodeId) \<Rightarrow> AddressSpace \<Rightarrow> NodeRef \<Rightarrow> error + BaseNode option" where
  "findObject rn sp nodeid =
     (case AddressSpace_resolveNodeId rn sp nodeid of
        Inl e \<Rightarrow> Inl e
      | Inr n \<Rightarrow> Inr (nodeid_index sp n))"

subsection \<open>Registration\<close>

text \<open>
  \<open>_register\<close> (its first three assertions hold of every \<open>BaseNode\<close> record)
  writes the node id index before it dispatches on the node class, so a failure after
  that point leaves the index written: the result is the exception, if any, together
  with the address space as the call leaves it.
\<close>

definition register :: "AddressSpace \<Rightarrow> BaseNode \<Rightarrow> error option \<times> AddressSpace" where
  "register sp object =
     (if nodeid_index sp (nodeId object) \<noteq> None then (Some AssertionError, sp)
      else
        let sp1 = sp\<lparr>nodeid_index := (nodeid_index sp)(nodeId object \<mapsto> object)\<rparr> in
        if nodeClass object = ObjectType then
          (None, sp1\<lparr>objectTypeMap := (objectTypeMap sp1)(browseName object \<mapsto> object)\<rparr>)
        else if nodeClass object = VariableType then
          (None, sp1\<lparr>variableTypeMap := (variableTypeMap sp1)(browseName object \<mapsto> object)\<rparr>)
        else if nodeClass object = Object then
          (None, sp1\<lparr>objectMap := (objectMap sp1)(browseName object \<mapsto> object)\<rparr>)
        else if nodeClass object = Variable then
          (None, sp1\<lparr>objectMap := (objectMap sp1)(browseName object \<mapsto> object)\<rparr>)
        else if nodeClass object = ReferenceType then
          (case inverseName object of
             None \<Rightarrow> (Some AssertionError, sp1)
           | Some inv_text \<Rightarrow>
               if inv_text = [] then (Some AssertionError, sp1)
               else (None, sp1\<lparr>referenceTypeMap := (referenceTypeMap sp1)(browseName object \<mapsto> object),
                                referenceTypeMapInv := (referenceTypeMapInv sp1)(inv_text \<mapsto> object)\<rparr>))
        else if nodeClass object = DataType then
          (None, sp1\<lparr>dataTypeMap := (dataTypeMap sp1)(browseName object \<mapsto> object)\<rparr>)
        else (Some InvalidClassName, sp1))"

text \<open>Loading a list of nodes, going on after a rejected one.\<close>

definition register_all :: "AddressSpace \<Rightarrow> BaseNode list \<Rightarrow> AddressSpace" where
  "register_all sp objects = foldl (\<lambda>sp1 object. snd (register sp1 object)) sp objects"

subsection \<open>browsePath\<close>

datatype StatusCode =
  Good | Bad_NodeIdUnknown | Bad_NodeIdInvalid | Bad_NothingToDo | Bad_BrowseNameInvalid
  | Uncertain_ReferenceOutOfServer | Bad_TooManyMatches | Bad_QueryTooComplex | Bad_NoMatch

record BrowsePathTarget =
  targetId :: NodeId
  remainingPathIndex :: nat

record BrowsePathResult =
  statusCode :: StatusCode
  targets :: "BrowsePathTarget list"

text \<open>
  Modelled from the spec: \<open>BaseNode.browseNodeByTargetName\<close> is defined in
  \<open>basenode\<close>, which is not among the sources. The specification has it return, from
  the node's local references, the children reachable via the element's reference type
  filter whose browse name equals the element's target name, the target of a reference
  being resolved through the address space, where it may be absent. The reference type
  filter, which consults the reference type hierarchy, is the parameter \<open>accepts\<close>.
\<close>

definition browseNodeByTargetName ::
  "(RelativePathElement \<Rightarrow> Reference \<Rightarrow> bool) \<Rightarrow> AddressSpace \<Rightarrow> BaseNode \<Rightarrow>
   RelativePathElement \<Rightarrow> NodeId list" where
  "browseNodeByTargetName accepts sp node element =
     map ref_nodeId
       (filter (\<lambda>ref. accepts element ref \<and>
                  (case nodeid_index sp (ref_nodeId ref) of
                     None \<Rightarrow> False
                   | Some child \<Rightarrow>
                       (case targetName element of
                          None \<Rightarrow> False
                        | Some tn \<Rightarrow> name tn = Some (browseName child))))
          (references node))"

text \<open>
  In \<open>browsePath\<close> and \<open>explore_element\<close>, which are in the sources,
  \<open>browseNodeByTargetName\<close> is the parameter \<open>bn\<close>: the node ids a node reaches
  for a path element.

  \<open>explore_element\<close> pushes onto the array \<open>res\<close> of the enclosing call; the model
  passes \<open>res\<close> in and returns it. \<open>curNodeObject\<close> is \<open>None\<close> when
  \<open>findObject\<close> returned \<open>undefined\<close>; calling a method on it is a \<open>TypeError\<close>.
  An index beyond the end of \<open>elements\<close> reads \<open>undefined\<close>, which fails the
  assertion on the element. An exception inside a \<open>forEach\<close> ends the loop. The
  constructor of \<open>BrowsePathResult\<close> is given no targets unless the status is
  \<open>Good\<close>; the model has the empty list there.
\<close>

function explore_element ::
  "(string \<Rightarrow> error + NodeId) \<Rightarrow> (BaseNode \<Rightarrow> RelativePathElement \<Rightarrow> NodeId list) \<Rightarrow>
   AddressSpace \<Rightarrow> BaseNode option \<Rightarrow> RelativePathElement list \<Rightarrow> nat \<Rightarrow>
   BrowsePathTarget list \<Rightarrow> error + BrowsePathTarget list" where
  "explore_element rn bn sp curNodeObject elems index res =
     (if length elems \<le> index then Inl AssertionError
      else
        case curNodeObject of
          None \<Rightarrow> Inl TypeError
        | Some cur \<Rightarrow>
            let element = elems ! index;
                nodeIds = bn cur element;
                targets0 = map (\<lambda>n. \<lparr>targetId = n, remainingPathIndex = length elems - index\<rparr>) nodeIds;
                is_last = (index + 1 = length elems)
            in
              if \<not> is_last then
                foldl (\<lambda>acc target.
                         case acc of
                           Inl e \<Rightarrow> Inl e
                         | Inr res1 \<Rightarrow>
                             (case findObject rn sp (RefNodeId (targetId target)) of
                                Inl e \<Rightarrow> Inl e
                              | Inr node \<Rightarrow> explore_element rn bn sp node elems (index + 1) res1))
                      (Inr res) targets0
              else
                Inr (res @ map (\<lambda>target. \<lparr>targetId = targetId target,
                                           remainingPathIndex = 0xFFFFFFFF\<rparr>) targets0))"
  by pat_completeness auto
termination
  by (relation "measure (\<lambda>(rn, bn, sp, cur, elems, index, res). length elems - index)") auto

declare explore_element.simps [simp del]

text \<open>
  The traversal in the words of the specification: at the last element the children
  produced are the targets; before it, the traversal descends into each child in turn,
  and a child that is not registered produces nothing. The targets come in depth-first
  order, duplicates kept.
\<close>

fun path_targets ::
  "(BaseNode \<Rightarrow> RelativePathElement \<Rightarrow> NodeId list) \<Rightarrow> AddressSpace \<Rightarrow> BaseNode \<Rightarrow>
   RelativePathElement list \<Rightarrow> NodeId list" where
  "path_targets bn sp cur [] = []"
| "path_targets bn sp cur [e] = bn cur e"
| "path_targets bn sp cur (e # e' # es) =
     concat (map (\<lambda>n. case nodeid_index sp n of
                         None \<Rightarrow> []
                       | Some child \<Rightarrow> path_targets bn sp child (e' # es))
                 (bn cur e))"

text \<open>
  \<open>returns_registered\<close>: for every registered node, \<open>bn\<close> returns the ids of
  registered nodes only.
\<close>

definition returns_registered ::
  "(BaseNode \<Rightarrow> RelativePathElement \<Rightarrow> NodeId list) \<Rightarrow> AddressSpace \<Rightarrow> bool" where
  "returns_registered bn sp =
     (\<forall>i node element. nodeid_index sp i = Some node \<longrightarrow>
        set (bn node element) \<subseteq> dom (nodeid_index sp))"




definition name_missing :: "RelativePathElement \<Rightarrow> bool" where
  "name_missing last_el =
     (case targetName last_el of
        None \<Rightarrow> True
      | Some tn \<Rightarrow> (case name tn of None \<Rightarrow> True | Some n \<Rightarrow> length n = 0))"

definition browsePath ::
  "(string \<Rightarrow> error + NodeId) \<Rightarrow> (BaseNode \<Rightarrow> RelativePathElement \<Rightarrow> NodeId list) \<Rightarrow>
   AddressSpace \<Rightarrow> BrowsePath \<Rightarrow> error + BrowsePathResult" where
  "browsePath rn bn sp bp =
     (case findObject rn sp (RefNodeId (startingNode bp)) of
        Inl e \<Rightarrow> Inl e
      | Inr None \<Rightarrow> Inr \<lparr>statusCode = Bad_NodeIdUnknown, targets = []\<rparr>
      | Inr (Some start) \<Rightarrow>
          if length (elements bp) = 0 then Inr \<lparr>statusCode = Bad_NothingToDo, targets = []\<rparr>
          else
            let l = length (elements bp);
                last_el = elements bp ! (l - 1)
            in
              if name_missing last_el then
                Inr \<lparr>statusCode = Bad_BrowseNameInvalid, targets = []\<rparr>
              else
                (case explore_element rn bn sp (Some start) (elements bp) 0 [] of
                   Inl e \<Rightarrow> Inl e
                 | Inr res \<Rightarrow>
                     if length res = 0 then Inr \<lparr>statusCode = Bad_NoMatch, targets = []\<rparr>
                     else Inr \<lparr>statusCode = Good, targets = res\<rparr>))"

subsection \<open>constructBrowsePath\<close>

definition browsePathElement_of :: "string \<Rightarrow> RelativePathElement" where
  "browsePathElement_of browsePathElement =
     (let s = str_split browsePathElement CHR '':'';
          namespaceIndex0 = (if length s = 2 then parseInt (s ! 0) else Num 0);
          browsePathElement' = (if length s = 2 then s ! 1 else browsePathElement)
      in \<lparr>referenceTypeId = makeNodeId 0,
          isInverse = False,
          includeSubtypes = False,
          targetName = Some \<lparr>namespaceIndex = namespaceIndex0, name = Some browsePathElement'\<rparr>\<rparr>)"

definition constructBrowsePath :: "NodeRef \<Rightarrow> string \<Rightarrow> BrowsePath" where
  "constructBrowsePath startingNode0 path =
     (let startingNode1 = (if startingNode0 = RefString ''/'' then RefNodeId rootFolderId
                           else startingNode0);
          arr = str_split path CHR ''.'';
          elements0 = map browsePathElement_of arr
      in \<lparr>startingNode = rootFolderId, elements = elements0\<rparr>)"

subsection \<open>Reference types\<close>

text \<open>
  The reads \<open>this._referenceTypeMap[refType]\<close> and
  \<open>this._referenceTypeMapInv[inverseName]\<close> are \<open>js_get\<close>: an inherited value is
  truthy and has no \<open>nodeClass\<close>, so it fails the assertion that follows.
\<close>

definition findReferenceType ::
  "(string \<Rightarrow> bool) \<Rightarrow> (string \<Rightarrow> error + NodeId) \<Rightarrow> AddressSpace \<Rightarrow> string \<Rightarrow>
   error + BaseNode option" where
  "findReferenceType inherited rn sp refType =
     (if take 2 refType = ''i='' then
        (case resolveNodeId rn (RefString refType) of
           Inl e \<Rightarrow> Inl e
         | Inr nid \<Rightarrow>
             (case findObject rn sp (RefNodeId nid) of
                Inl e \<Rightarrow> Inl e
              | Inr None \<Rightarrow> Inl AssertionError
              | Inr (Some object) \<Rightarrow>
                  if nodeClass object = ReferenceType then Inr (Some object)
                  else Inl AssertionError))
      else
        (case js_get inherited (referenceTypeMap sp) refType of
           Missing \<Rightarrow> Inr None
         | Inherited \<Rightarrow> Inl AssertionError
         | Own object \<Rightarrow>
             if nodeClass object = ReferenceType \<and> browseName object = refType
             then Inr (Some object)
             else Inl AssertionError))"

definition findReferenceTypeFromInverseName ::
  "(string \<Rightarrow> bool) \<Rightarrow> AddressSpace \<Rightarrow> string \<Rightarrow> error + BaseNode option" where
  "findReferenceTypeFromInverseName inherited sp inverseName0 =
     (case js_get inherited (referenceTypeMapInv sp) inverseName0 of
        Missing \<Rightarrow> Inr None
      | Inherited \<Rightarrow> Inl AssertionError
      | Own object \<Rightarrow>
          if nodeClass object = ReferenceType \<and> inverseName object = Some inverseName0
          then Inr (Some object)
          else Inl AssertionError)"

text \<open>
  The \<open>isForward\<close> field of the argument of \<open>normalizeReferenceType\<close> is a boolean,
  \<open>null\<close> or missing (\<open>undefined\<close>). \<open>js_not\<close> is JavaScript's \<open>!\<close> on it.
\<close>

datatype jsflag = JNull | JUndefined | JBool bool

fun js_not :: "jsflag \<Rightarrow> bool" where
  "js_not JNull = True"
| "js_not JUndefined = True"
| "js_not (JBool b) = (\<not> b)"

record RefParams =
  referenceType :: string
  isForward :: jsflag

definition normalizeReferenceType ::
  "(string \<Rightarrow> bool) \<Rightarrow> (string \<Rightarrow> error + NodeId) \<Rightarrow> AddressSpace \<Rightarrow> RefParams \<Rightarrow>
   error + RefParams" where
  "normalizeReferenceType inherited rn sp params =
     (let params1 = params\<lparr>isForward := (if isForward params = JNull then JBool True
                                           else isForward params)\<rparr>
      in
        case findReferenceType inherited rn sp (referenceType params1) of
          Inl e \<Rightarrow> Inl e
        | Inr n1 \<Rightarrow>
            (case findReferenceTypeFromInverseName inherited sp (referenceType params1) of
               Inl e \<Rightarrow> Inl e
             | Inr n2 \<Rightarrow>
                 if n1 = None \<and> n2 = None then Inr params1
                 else if n1 \<noteq> None then
                   (if n2 \<noteq> None then Inl AssertionError else Inr params1)
                 else
                   (case n2 of
                      None \<Rightarrow> Inl AssertionError
                    | Some r \<Rightarrow>
                        Inr (params1\<lparr>referenceType := browseName r,
                                     isForward := JBool (js_not (isForward params1))\<rparr>))))"

text \<open>
  What registration maintains on the two reference type indices: an entry of the
  browse name index is a reference type filed under its browse name, an entry of the
  inverse name index is a reference type filed under its inverse name, and every
  reference type of the inverse name index has been filed in the browse name index too
  (there, a later reference type of the same browse name may have replaced it).
\<close>

definition registration_invariants :: "AddressSpace \<Rightarrow> bool" where
  "registration_invariants sp =
     ((\<forall>n r. referenceTypeMap sp n = Some r \<longrightarrow> nodeClass r = ReferenceType \<and> browseName r = n) \<and>
      (\<forall>n r. referenceTypeMapInv sp n = Some r \<longrightarrow>
             nodeClass r = ReferenceType \<and> inverseName r = Some n \<and>
             referenceTypeMap sp (browseName r) \<noteq> None) \<and>
      (\<forall>i r. nodeid_index sp i = Some r \<longrightarrow> nodeId r = i))"

text \<open>
  No node has been filed under the name \<open>__proto__\<close> in a reference type index (such
  a write would have replaced the prototype of the index).
\<close>

definition no_proto_key :: "AddressSpace \<Rightarrow> bool" where
  "no_proto_key sp =
     (referenceTypeMap sp ''__proto__'' = None \<and> referenceTypeMapInv sp ''__proto__'' = None)"

text \<open>
  The invariant the specification states for the two indices: the inverse name of
  every entry of the browse name index leads back to that entry.
\<close>

definition inverse_leads_back :: "AddressSpace \<Rightarrow> bool" where
  "inverse_leads_back sp =
     (\<forall>n r. referenceTypeMap sp n = Some r \<longrightarrow>
            (\<exists>t. inverseName r = Some t \<and> referenceTypeMapInv sp t = Some r))"

subsection \<open>Concrete address spaces\<close>

text \<open>
  The parser of node id strings used with the concrete address spaces reads
  \<open>i=<digits>\<close> and rejects everything else; their reference type filter lets every
  reference pass.
\<close>

definition parse_numeric :: "string \<Rightarrow> error + NodeId" where
  "parse_numeric s =
     (if take 2 s = ''i='' \<and> drop 2 s \<noteq> [] \<and> list_all (is_digit 10) (drop 2 s)
      then Inr (makeNodeId (digits_val 10 (drop 2 s)))
      else Inl NodeIdSyntax)"

definition any_reference :: "RelativePathElement \<Rightarrow> Reference \<Rightarrow> bool" where
  "any_reference element ref = True"

definition organizes :: "nat \<Rightarrow> Reference" where
  "organizes i = \<lparr>ref_referenceType = ''Organizes'', ref_nodeId = makeNodeId i, ref_isForward = True\<rparr>"

definition mk_node :: "nat \<Rightarrow> string \<Rightarrow> NodeClass \<Rightarrow> Reference list \<Rightarrow> BaseNode" where
  "mk_node i bname cls refs =
     \<lparr>nodeId = makeNodeId i, browseName = bname, nodeClass = cls, inverseName = None,
      references = refs\<rparr>"

definition mk_reftype :: "nat \<Rightarrow> string \<Rightarrow> string \<Rightarrow> BaseNode" where
  "mk_reftype i bname iname =
     \<lparr>nodeId = makeNodeId i, browseName = bname, nodeClass = ReferenceType,
      inverseName = Some iname, references = []\<rparr>"

definition path_of :: "nat \<Rightarrow> string list \<Rightarrow> BrowsePath" where
  "path_of start names =
     \<lparr>startingNode = makeNodeId start,
      elements = map (\<lambda>n. \<lparr>referenceTypeId = makeNodeId 0, isInverse = False, includeSubtypes = False,
                           targetName = Some \<lparr>namespaceIndex = Num 0, name = Some n\<rparr>\<rparr>) names\<rparr>"


definition space_b :: AddressSpace where
  "space_b = register_all new_AddressSpace
     [mk_node 84 ''Root'' Object [organizes 99, organizes 85],
      mk_node 85 ''A'' Object [organizes 86],
      mk_node 86 ''B'' Object []]"

definition space_r :: AddressSpace where
  "space_r = register_all new_AddressSpace [mk_reftype 35 ''Organizes'' ''OrganizedBy'']"

definition space_c :: AddressSpace where
  "space_c = register_all new_AddressSpace [mk_reftype 1 ''A'' ''B'', mk_reftype 2 ''C'' ''A'']"

definition space_k :: AddressSpace where
  "space_k = register_all new_AddressSpace [mk_reftype 3 ''constructor'' ''madeBy'']"

subsection \<open>Predicates used in the statements\<close>

text \<open>A target whose path has been consumed entirely.\<close>

definition sentinel :: "NodeId \<Rightarrow> BrowsePathTarget" where
  "sentinel n = \<lparr>targetId = n, remainingPathIndex = 0xFFFFFFFF\<rparr>"

definition sentinel_only :: "BrowsePathTarget list \<Rightarrow> bool" where
  "sentinel_only ts = list_all (\<lambda>t. remainingPathIndex t = 0xFFFFFFFF) ts"

text \<open>
  No reference type of the inverse name index has a browse name that the inverse name
  index answers to (as a key of its own or by inheritance), or that reads as a numeric
  node id string.
\<close>

definition names_apart :: "(string \<Rightarrow> bool) \<Rightarrow> AddressSpace \<Rightarrow> bool" where
  "names_apart inherited sp =
     (\<forall>n r. referenceTypeMapInv sp n = Some r \<longrightarrow>
            js_get inherited (referenceTypeMapInv sp) (browseName r) = Missing \<and>
            take 2 (browseName r) \<noteq> ''i='')"

section \<open>The client side publish engine\<close>

text \<open>
  Subscription ids, sequence numbers and publish times are natural numbers; a piece of
  notification data and a subscription callback are opaque and stand as numbers too.
  An acknowledgement is the pair of a subscription id and a sequence number.
  \<open>notificationData\<close> is \<open>None\<close> when the field is \<open>null\<close> or missing.
\<close>

record NotificationMessage =
  sequenceNumber :: nat
  publishTime :: nat
  notificationData :: "nat list option"

record PublishResponse =
  subscriptionId :: nat
  notificationMessage :: NotificationMessage

record PublishRequest =
  requestHeader_timeoutHint :: int
  request_subscriptionAcknowledgements :: "(nat \<times> nat) list"

record ClientSidePublishEngine =
  session :: "nat option"
  subscriptionAcknowledgements :: "(nat \<times> nat) list"
  subscriptionIdFuncMap :: "nat \<rightharpoonup> nat"
  timeoutHint :: int
  activeSubscriptionCount :: int
  nbPendingPublishRequests :: int

text \<open>
  The engine runs on the JavaScript event loop. Beside the engine, the state holds what
  the engine has handed to its environment: \<open>deferred\<close> counts the functions queued by
  \<open>setImmediate\<close> and not yet run, \<open>in_flight\<close> lists the requests given to
  \<open>session.publish\<close> whose callback has not been called yet, and \<open>calls\<close> records
  every call of a subscription callback (callback, notification data, publish time). A
  subscription callback is a call out of the engine: it is recorded, and what it does
  is not part of the engine.
\<close>

record Runtime =
  engine :: ClientSidePublishEngine
  deferred :: nat
  in_flight :: "PublishRequest list"
  calls :: "(nat \<times> nat list \<times> nat) list"

definition new_ClientSidePublishEngine :: "nat \<Rightarrow> ClientSidePublishEngine" where
  "new_ClientSidePublishEngine sess =
     \<lparr>session = Some sess, subscriptionAcknowledgements = [], subscriptionIdFuncMap = Map.empty,
      timeoutHint = 10000, activeSubscriptionCount = 0, nbPendingPublishRequests = 0\<rparr>"

definition new_Runtime :: "nat \<Rightarrow> Runtime" where
  "new_Runtime sess =
     \<lparr>engine = new_ClientSidePublishEngine sess, deferred = 0, in_flight = [], calls = []\<rparr>"

definition publishRequestCountInPipeline :: nat where
  "publishRequestCountInPipeline = 5"

definition acknowledge_notification :: "Runtime \<Rightarrow> nat \<Rightarrow> nat \<Rightarrow> Runtime" where
  "acknowledge_notification w sid seq =
     w\<lparr>engine := (engine w)\<lparr>subscriptionAcknowledgements :=
          subscriptionAcknowledgements (engine w) @ [(sid, seq)]\<rparr>\<rparr>"

definition cleanup_acknowledgment_for_subscription :: "Runtime \<Rightarrow> nat \<Rightarrow> Runtime" where
  "cleanup_acknowledgment_for_subscription w sid =
     w\<lparr>engine := (engine w)\<lparr>subscriptionAcknowledgements :=
          filter (\<lambda>a. fst a \<noteq> sid) (subscriptionAcknowledgements (engine w))\<rparr>\<rparr>"

text \<open>\<open>send_publish_request\<close> only queues its body with \<open>setImmediate\<close>.\<close>

definition send_publish_request :: "Runtime \<Rightarrow> Runtime" where
  "send_publish_request w = w\<lparr>deferred := deferred w + 1\<rparr>"

text \<open>
  \<open>_send_publish_request\<close>. Its second assertion comes after the counter and the
  acknowledgement queue have been written, so a failure there leaves them written.
\<close>

definition private_send_publish_request :: "Runtime \<Rightarrow> error option \<times> Runtime" where
  "private_send_publish_request w =
     (if session (engine w) = None then (Some AssertionError, w)
      else
        let e1 = (engine w)\<lparr>nbPendingPublishRequests := nbPendingPublishRequests (engine w) + 1\<rparr>;
            acks = subscriptionAcknowledgements e1;
            e2 = e1\<lparr>subscriptionAcknowledgements := []\<rparr>
        in
          if \<not> nbPendingPublishRequests e2 > 0 then (Some AssertionError, w\<lparr>engine := e2\<rparr>)
          else
            let calculatedTimeout = nbPendingPublishRequests e2 * timeoutHint e2;
                publish_request = \<lparr>requestHeader_timeoutHint = calculatedTimeout,
                                   request_subscriptionAcknowledgements = acks\<rparr>
            in (None, w\<lparr>engine := e2, in_flight := in_flight w @ [publish_request]\<rparr>))"

text \<open>One function queued by \<open>send_publish_request\<close> runs.\<close>

definition run_deferred :: "Runtime \<Rightarrow> error option \<times> Runtime" where
  "run_deferred w =
     (if deferred w = 0 then (None, w)
      else
        let w1 = w\<lparr>deferred := deferred w - 1\<rparr> in
        if session (engine w1) = None then (None, w1)
        else private_send_publish_request w1)"

definition terminate :: "Runtime \<Rightarrow> Runtime" where
  "terminate w = w\<lparr>engine := (engine w)\<lparr>session := None\<rparr>\<rparr>"

definition subscriptionCount :: "Runtime \<Rightarrow> nat" where
  "subscriptionCount w = card (dom (subscriptionIdFuncMap (engine w)))"

definition registerSubscriptionCallback ::
  "Runtime \<Rightarrow> nat \<Rightarrow> jsnum \<Rightarrow> nat \<Rightarrow> error option \<times> Runtime" where
  "registerSubscriptionCallback w sid hint callback =
     (if subscriptionIdFuncMap (engine w) sid \<noteq> None then (Some AssertionError, w)
      else
        case hint of
          NaN \<Rightarrow> (Some AssertionError, w)
        | Num t \<Rightarrow>
            let e1 = (engine w)\<lparr>activeSubscriptionCount := activeSubscriptionCount (engine w) + 1\<rparr>;
                e2 = e1\<lparr>subscriptionIdFuncMap := (subscriptionIdFuncMap e1)(sid \<mapsto> callback)\<rparr>;
                e3 = e2\<lparr>timeoutHint := max (timeoutHint e2) t\<rparr>;
                w1 = send_publish_request (w\<lparr>engine := e3\<rparr>)
            in (None, (send_publish_request ^^ (publishRequestCountInPipeline - 1)) w1))"

definition unregisterSubscriptionCallback :: "Runtime \<Rightarrow> nat \<Rightarrow> error option \<times> Runtime" where
  "unregisterSubscriptionCallback w sid =
     (let e1 = (engine w)\<lparr>activeSubscriptionCount := activeSubscriptionCount (engine w) - 1\<rparr> in
      if subscriptionIdFuncMap e1 sid = None then (Some AssertionError, w\<lparr>engine := e1\<rparr>)
      else (None, w\<lparr>engine := e1\<lparr>subscriptionIdFuncMap := (subscriptionIdFuncMap e1)(sid := None)\<rparr>\<rparr>))"

definition data_of :: "NotificationMessage \<Rightarrow> nat list" where
  "data_of msg = (case notificationData msg of None \<Rightarrow> [] | Some d \<Rightarrow> d)"

text \<open>\<open>_receive_publish_response\<close>.\<close>

definition receive_publish_response :: "Runtime \<Rightarrow> PublishResponse \<Rightarrow> Runtime" where
  "receive_publish_response w response =
     (let sid = subscriptionId response;
          msg = notificationMessage response;
          data = data_of msg;
          w1 = (if length data \<noteq> 0 then acknowledge_notification w sid (sequenceNumber msg) else w);
          callback_for_subscription = subscriptionIdFuncMap (engine w1) sid
      in
        case callback_for_subscription of
          None \<Rightarrow> w1
        | Some callback \<Rightarrow>
            if session (engine w1) \<noteq> None
            then w1\<lparr>calls := calls w1 @ [(callback, data, publishTime msg)]\<rparr>
            else w1)"

text \<open>
  The callback that \<open>_send_publish_request\<close> gives to \<open>session.publish\<close>; its
  argument is \<open>None\<close> for an error and the response otherwise.
\<close>

definition publish_callback :: "Runtime \<Rightarrow> PublishResponse option \<Rightarrow> Runtime" where
  "publish_callback w response =
     (let w1 = w\<lparr>engine := (engine w)\<lparr>nbPendingPublishRequests :=
                    nbPendingPublishRequests (engine w) - 1\<rparr>\<rparr>;
          w2 = (case response of None \<Rightarrow> w1 | Some r \<Rightarrow> receive_publish_response w1 r)
      in if activeSubscriptionCount (engine w2) > 0 then send_publish_request w2 else w2)"

text \<open>
  The session answers the request at position \<open>k\<close> of those in flight: the callback of
  a request is called at most once.
\<close>

definition deliver :: "Runtime \<Rightarrow> nat \<Rightarrow> PublishResponse option \<Rightarrow> Runtime" where
  "deliver w k response =
     (if k < length (in_flight w)
      then publish_callback (w\<lparr>in_flight := take k (in_flight w) @ drop (Suc k) (in_flight w)\<rparr>) response
      else w)"

text \<open>
  What can happen to an engine: a call of one of its methods (the last two are the
  methods \<open>_send_publish_request\<close> and \<open>_receive_publish_response\<close> called
  from outside), a queued function running, or a request being answered. A call that
  raises leaves the state it has reached, and the next thing happens from there.
\<close>

datatype Operation =
  Register nat jsnum nat
  | Unregister nat
  | Acknowledge nat nat
  | Cleanup nat
  | SendPublishRequest
  | Terminate
  | RunDeferred
  | Deliver nat "PublishResponse option"
  | PrivateSendPublishRequest
  | PrivateReceivePublishResponse PublishResponse

fun step :: "Runtime \<Rightarrow> Operation \<Rightarrow> Runtime" where
  "step w (Register sid hint callback) = snd (registerSubscriptionCallback w sid hint callback)"
| "step w (Unregister sid) = snd (unregisterSubscriptionCallback w sid)"
| "step w (Acknowledge sid seq) = acknowledge_notification w sid seq"
| "step w (Cleanup sid) = cleanup_acknowledgment_for_subscription w sid"
| "step w SendPublishRequest = send_publish_request w"
| "step w Terminate = terminate w"
| "step w RunDeferred = snd (run_deferred w)"
| "step w (Deliver k response) = deliver w k response"
| "step w PrivateSendPublishRequest = snd (private_send_publish_request w)"
| "step w (PrivateReceivePublishResponse response) = receive_publish_response w response"

definition run :: "Runtime \<Rightarrow> Operation list \<Rightarrow> Runtime" where
  "run w ops = foldl step w ops"

fun registered_id :: "Operation \<Rightarrow> nat list" where
  "registered_id (Register sid hint callback) = [sid]"
| "registered_id _ = []"

definition registered_ids :: "Operation list \<Rightarrow> nat list" where
  "registered_ids ops = concat (map registered_id ops)"

fun register_or_deferred :: "Operation \<Rightarrow> bool" where
  "register_or_deferred (Register sid (Num t) callback) = True"
| "register_or_deferred RunDeferred = True"
| "register_or_deferred _ = False"

text \<open>Two registrations, each followed by its five queued sends.\<close>

definition two_registrations :: "Operation list" where
  "two_registrations =
     [Register 1 (Num 1000) 7, RunDeferred, RunDeferred, RunDeferred, RunDeferred, RunDeferred,
      Register 2 (Num 20000) 8, RunDeferred, RunDeferred, RunDeferred, RunDeferred, RunDeferred]"

text \<open>
  One registration of the callback \<open>3\<close> for the subscription \<open>7\<close> with one request
  sent, and a response for that subscription: sequence number 42, two pieces of data.
\<close>

definition one_registration :: "Operation list" where
  "one_registration = [Register 7 (Num 1000) 3, RunDeferred]"

definition data_response :: PublishResponse where
  "data_response =
     \<lparr>subscriptionId = 7,
      notificationMessage = \<lparr>sequenceNumber = 42, publishTime = 99, notificationData = Some [1, 2]\<rparr>\<rparr>"

definition keep_alive_response :: PublishResponse where
  "keep_alive_response =
     \<lparr>subscriptionId = 7,
      notificationMessage = \<lparr>sequenceNumber = 43, publishTime = 100, notificationData = None\<rparr>\<rparr>"

section \<open>Properties of the address space\<close>

lemma split_from_nonempty: "split_from sep cur s \<noteq> []"
  by (induction s arbitrary: cur) auto

lemma constructBrowsePath_elements:
  "length (elements (constructBrowsePath sn path)) = length (str_split path CHR ''.'') \<and>
   list_all (\<lambda>e. referenceTypeId e = makeNodeId 0 \<and> isInverse e = False \<and> includeSubtypes e = False)
     (elements (constructBrowsePath sn path))"
  by (simp add: constructBrowsePath_def browsePathElement_of_def Let_def list_all_iff)

lemma parseInt_examples:
  "parseInt ''4'' = Num 4" "parseInt ''  12abc'' = Num 12" "parseInt ''0x1f'' = Num 31"
  "parseInt ''-7'' = Num (- 7)" "parseInt [] = NaN" "parseInt ''ns'' = NaN"
  by (simp_all add: parseInt_def is_space_def is_digit_def digit_val_def digits_val_def)

lemma constructBrowsePath_example:
  "constructBrowsePath (RefString ''/'') ''Objects.4:Boilers'' =
     \<lparr>startingNode = makeNodeId 84,
      elements =
        [\<lparr>referenceTypeId = makeNodeId 0, isInverse = False, includeSubtypes = False,
          targetName = Some \<lparr>namespaceIndex = Num 0, name = Some ''Objects''\<rparr>\<rparr>,
         \<lparr>referenceTypeId = makeNodeId 0, isInverse = False, includeSubtypes = False,
          targetName = Some \<lparr>namespaceIndex = Num 4, name = Some ''Boilers''\<rparr>\<rparr>]\<rparr>"
  by (simp add: constructBrowsePath_def browsePathElement_of_def rootFolderId_def str_split_def
      parseInt_def is_space_def is_digit_def digit_val_def digits_val_def)

text \<open>
  C1. \<open>constructBrowsePath\<close> is documented to start the browse path at the node it is
  given; called with the node id \<open>i=85\<close> it returns a path that starts at the root
  folder \<open>i=84\<close> instead, because the \<open>startingNode\<close> argument is dropped.
\<close>

theorem constructBrowsePath_ignores_startingNode:
  "startingNode (constructBrowsePath (RefNodeId (makeNodeId 85)) ''Objects'') = makeNodeId 84 \<and>
   makeNodeId 84 \<noteq> makeNodeId 85 \<and>
   map targetName (elements (constructBrowsePath (RefNodeId (makeNodeId 85)) ''Objects'')) =
     [Some \<lparr>namespaceIndex = Num 0, name = Some ''Objects''\<rparr>]"
  by (simp add: constructBrowsePath_def browsePathElement_of_def rootFolderId_def makeNodeId_def
      str_split_def)

subsection \<open>Concrete address spaces\<close>

lemma findObject_NodeId: "findObject rn sp (RefNodeId n) = Inr (nodeid_index sp n)"
  by (simp add: findObject_def AddressSpace_resolveNodeId_def resolveNodeId_def)


lemma space_b_index:
  "nodeid_index space_b =
     [makeNodeId 84 \<mapsto> mk_node 84 ''Root'' Object [organizes 99, organizes 85],
      makeNodeId 85 \<mapsto> mk_node 85 ''A'' Object [organizes 86],
      makeNodeId 86 \<mapsto> mk_node 86 ''B'' Object []]"
  by (simp add: space_b_def register_all_def register_def new_AddressSpace_def mk_node_def Let_def
      makeNodeId_def)

lemma space_r_maps:
  "referenceTypeMap space_r = [''Organizes'' \<mapsto> mk_reftype 35 ''Organizes'' ''OrganizedBy'']"
  "referenceTypeMapInv space_r = [''OrganizedBy'' \<mapsto> mk_reftype 35 ''Organizes'' ''OrganizedBy'']"
  "nodeid_index space_r = [makeNodeId 35 \<mapsto> mk_reftype 35 ''Organizes'' ''OrganizedBy'']"
  by (simp_all add: space_r_def register_all_def register_def new_AddressSpace_def mk_reftype_def Let_def)

lemma space_c_maps:
  "referenceTypeMap space_c = [''A'' \<mapsto> mk_reftype 1 ''A'' ''B'', ''C'' \<mapsto> mk_reftype 2 ''C'' ''A'']"
  "referenceTypeMapInv space_c = [''B'' \<mapsto> mk_reftype 1 ''A'' ''B'', ''A'' \<mapsto> mk_reftype 2 ''C'' ''A'']"
  by (simp_all add: space_c_def register_all_def register_def new_AddressSpace_def mk_reftype_def Let_def makeNodeId_def)

lemma space_k_maps:
  "referenceTypeMap space_k = [''constructor'' \<mapsto> mk_reftype 3 ''constructor'' ''madeBy'']"
  "referenceTypeMapInv space_k = [''madeBy'' \<mapsto> mk_reftype 3 ''constructor'' ''madeBy'']"
  by (simp_all add: space_k_def register_all_def register_def new_AddressSpace_def mk_reftype_def Let_def)

lemma parse_numeric_35: "parse_numeric ''i=35'' = Inr (makeNodeId 35)"
  by (simp add: parse_numeric_def is_digit_def digit_val_def digits_val_def)

lemma object_prototype_name_examples:
  "object_prototype_name ''constructor''" "\<not> object_prototype_name ''Organizes''"
  "\<not> object_prototype_name ''OrganizedBy''" "\<not> object_prototype_name ''Missing''"
  "\<not> object_prototype_name ''madeBy''" "\<not> object_prototype_name ''A''"
  "\<not> object_prototype_name ''B''"
  by (simp_all add: object_prototype_name_def object_prototype_names_def)

subsection \<open>The traversal\<close>

lemma foldl_Inl:
  "foldl (\<lambda>acc t. case acc of Inl e \<Rightarrow> Inl e | Inr r \<Rightarrow> f r t) (Inl e) ts = Inl e"
  by (induction ts) auto

lemma foldl_Inr_invariant:
  assumes "foldl (\<lambda>acc t. case acc of Inl e \<Rightarrow> Inl e | Inr r \<Rightarrow> f r t) (Inr res) ts = Inr out"
    and "P res"
    and "\<And>t r r'. t \<in> set ts \<Longrightarrow> P r \<Longrightarrow> f r t = Inr r' \<Longrightarrow> P r'"
  shows "P out"
  using assms
proof (induction ts arbitrary: res)
  case Nil
  then show ?case by simp
next
  case (Cons t ts)
  show ?case
  proof (cases "f res t")
    case (Inl e)
    with Cons.prems(1) show ?thesis by (simp add: foldl_Inl)
  next
    case (Inr r')
    have p: "P r'" using Cons.prems(3) [of t res r'] Cons.prems(2) Inr by simp
    have step: "foldl (\<lambda>acc t. case acc of Inl e \<Rightarrow> Inl e | Inr r \<Rightarrow> f r t) (Inr r') ts = Inr out"
      using Cons.prems(1) Inr by simp
    show ?thesis
    proof (rule Cons.IH [OF step p])
      fix u r r''
      assume "u \<in> set ts" "P r" "f r u = Inr r''"
      then show "P r''" using Cons.prems(3) [of u r r''] by simp
    qed
  qed
qed

lemma foldl_Inr_append:
  assumes "\<And>t r. t \<in> set ts \<Longrightarrow> f r t = Inr (r @ g t)"
  shows "foldl (\<lambda>acc t. case acc of Inl e \<Rightarrow> Inl e | Inr r \<Rightarrow> f r t) (Inr res) ts =
         Inr (res @ concat (map g ts))"
  using assms
proof (induction ts arbitrary: res)
  case Nil
  then show ?case by simp
next
  case (Cons t ts)
  have "f res t = Inr (res @ g t)" using Cons.prems by simp
  moreover have "foldl (\<lambda>acc t. case acc of Inl e \<Rightarrow> Inl e | Inr r \<Rightarrow> f r t) (Inr (res @ g t)) ts =
         Inr ((res @ g t) @ concat (map g ts))"
    by (rule Cons.IH) (simp add: Cons.prems)
  ultimately show ?case by simp
qed

lemma explore_element_sentinel:
  "explore_element rn bn sp cur elems index res = Inr out \<Longrightarrow> sentinel_only res \<Longrightarrow> sentinel_only out"
proof (induction rn bn sp cur elems index res arbitrary: out rule: explore_element.induct)
  case (1 rn bn sp curNodeObject elems index res)
  from "1.prems"(1) have inrange: "\<not> length elems \<le> index"
    by (subst (asm) explore_element.simps) (auto split: if_splits)
  from "1.prems"(1) inrange obtain cur where cur: "curNodeObject = Some cur"
    by (subst (asm) explore_element.simps) (auto split: option.splits)
  define targets0 where "targets0 = map (\<lambda>n. \<lparr>targetId = n, remainingPathIndex = length elems - index\<rparr>) (bn cur (elems ! index))"
  show ?case
  proof (cases "index + 1 = length elems")
    case True
    with "1.prems" inrange cur show ?thesis
      by (subst (asm) explore_element.simps) (auto simp: sentinel_only_def list_all_iff)
  next
    case False
    let ?f = "\<lambda>res1 target. case findObject rn sp (RefNodeId (targetId target)) of
                                Inl e \<Rightarrow> Inl e
                              | Inr node \<Rightarrow> explore_element rn bn sp node elems (index + 1) res1"
    have fold: "foldl (\<lambda>acc t. case acc of Inl e \<Rightarrow> Inl e | Inr r \<Rightarrow> ?f r t) (Inr res) targets0 = Inr out"
      using "1.prems"(1) inrange cur False
      by (subst (asm) explore_element.simps) (simp add: targets0_def Let_def)
    show ?thesis
    proof (rule foldl_Inr_invariant [where P = sentinel_only and f = ?f, OF fold "1.prems"(2)])
      fix t r r'
      assume t: "t \<in> set targets0" and r: "sentinel_only r" and f: "?f r t = Inr r'"
      from f obtain node where node: "findObject rn sp (RefNodeId (targetId t)) = Inr node"
        and ex: "explore_element rn bn sp node elems (index + 1) r = Inr r'"
        by (auto split: sum.splits)
      show "sentinel_only r'"
        using "1.IH" [OF inrange cur refl refl refl refl _ _ _ node ex r] False t
        by (simp add: targets0_def)
    qed
  qed
qed

lemma path_targets_Cons:
  "es \<noteq> [] \<Longrightarrow>
   path_targets bn sp cur (e # es) =
     concat (map (\<lambda>n. case nodeid_index sp n of None \<Rightarrow> []
                       | Some child \<Rightarrow> path_targets bn sp child es) (bn cur e))"
  by (cases es) (simp_all cong: option.case_cong)

text \<open>
  When \<open>browseNodeByTargetName\<close> returns registered nodes only, \<open>explore_element\<close>
  raises nothing and appends to \<open>res\<close> the targets of the rest of the path, each
  with the index \<open>0xFFFFFFFF\<close>.
\<close>

lemma explore_element_path_targets:
  "returns_registered bn sp \<Longrightarrow> curNodeObject = Some cur \<Longrightarrow> nodeid_index sp i = Some cur \<Longrightarrow>
   index < length elems \<Longrightarrow>
   explore_element rn bn sp curNodeObject elems index res =
     Inr (res @ map sentinel (path_targets bn sp cur (drop index elems)))"
proof (induction rn bn sp curNodeObject elems index res arbitrary: i cur rule: explore_element.induct)
  case (1 rn bn sp curNodeObject elems index res)
  note reg = "1.prems"(1) and cur = "1.prems"(2) and registered = "1.prems"(3)
  have inrange: "\<not> length elems \<le> index" using "1.prems"(4) by simp
  have d: "drop index elems = elems ! index # drop (Suc index) elems"
    using "1.prems"(4) by (simp add: Cons_nth_drop_Suc)
  show ?case
  proof (cases "index + 1 = length elems")
    case True
    then have "drop (Suc index) elems = []" by simp
    with True inrange d cur show ?thesis
      by (subst explore_element.simps) (simp add: Let_def sentinel_def comp_def)
  next
    case False
    then have lt: "Suc index < length elems" using "1.prems"(4) by simp
    define targets0 where "targets0 = map (\<lambda>n. \<lparr>targetId = n, remainingPathIndex = length elems - index\<rparr>) (bn cur (elems ! index))"
    let ?f = "\<lambda>res1 target. case findObject rn sp (RefNodeId (targetId target)) of
                                Inl e \<Rightarrow> Inl e
                              | Inr node \<Rightarrow> explore_element rn bn sp node elems (index + 1) res1"
    let ?g = "\<lambda>target. map sentinel (case nodeid_index sp (targetId target) of None \<Rightarrow> []
                | Some child \<Rightarrow> path_targets bn sp child (drop (Suc index) elems))"
    have step: "?f r t = Inr (r @ ?g t)" if t: "t \<in> set targets0" for t r
    proof -
      from t have "targetId t \<in> set (bn cur (elems ! index))" by (auto simp: targets0_def)
      with reg registered obtain child where child: "nodeid_index sp (targetId t) = Some child"
        unfolding returns_registered_def by blast
      have node: "findObject rn sp (RefNodeId (targetId t)) = Inr (Some child)"
        by (simp add: findObject_NodeId child)
      have "explore_element rn bn sp (Some child) elems (index + 1) r =
              Inr (r @ map sentinel (path_targets bn sp child (drop (index + 1) elems)))"
        using "1.IH" [OF inrange cur refl refl refl refl _ _ _ node reg refl child] False t lt
        by (simp add: targets0_def)
      then show ?thesis by (simp add: node child)
    qed
    have "explore_element rn bn sp curNodeObject elems index res =
            foldl (\<lambda>acc t. case acc of Inl e \<Rightarrow> Inl e | Inr r \<Rightarrow> ?f r t) (Inr res) targets0"
      using inrange cur False
      by (subst explore_element.simps) (simp add: targets0_def Let_def)
    also have "\<dots> = Inr (res @ concat (map ?g targets0))"
      by (rule foldl_Inr_append) (rule step)
    also have "concat (map ?g targets0) = map sentinel (path_targets bn sp cur (drop index elems))"
    proof -
      have "path_targets bn sp cur (drop index elems) =
              concat (map (\<lambda>n. case nodeid_index sp n of None \<Rightarrow> []
                                | Some child \<Rightarrow> path_targets bn sp child (drop (Suc index) elems))
                          (bn cur (elems ! index)))"
        using lt by (subst d) (simp add: path_targets_Cons)
      then show ?thesis
        by (simp add: targets0_def comp_def map_concat option.case_distrib [of "map sentinel"])
    qed
    finally show ?thesis .
  qed
qed

subsection \<open>browsePath\<close>

text \<open>
  The checks of \<open>browsePath\<close> in their order, for every \<open>browseNodeByTargetName\<close>:
  the starting node, the empty path, the name of the last element, and then the
  traversal, whose exception, if it raises one, is the outcome.
\<close>

lemma browsePath_status_order:
  "browsePath rn bn sp bp =
     (case nodeid_index sp (startingNode bp) of
        None \<Rightarrow> Inr \<lparr>statusCode = Bad_NodeIdUnknown, targets = []\<rparr>
      | Some start \<Rightarrow>
          if elements bp = [] then Inr \<lparr>statusCode = Bad_NothingToDo, targets = []\<rparr>
          else if name_missing (last (elements bp)) then
            Inr \<lparr>statusCode = Bad_BrowseNameInvalid, targets = []\<rparr>
          else
            (case explore_element rn bn sp (Some start) (elements bp) 0 [] of
               Inl e \<Rightarrow> Inl e
             | Inr res \<Rightarrow>
                 if res = [] then Inr \<lparr>statusCode = Bad_NoMatch, targets = []\<rparr>
                 else Inr \<lparr>statusCode = Good, targets = res\<rparr>))"
  by (simp add: browsePath_def findObject_NodeId Let_def last_conv_nth split: option.splits sum.splits)

lemma browsePath_cascade:
  assumes "returns_registered bn sp"
  shows "browsePath rn bn sp bp =
     Inr (case nodeid_index sp (startingNode bp) of
            None \<Rightarrow> \<lparr>statusCode = Bad_NodeIdUnknown, targets = []\<rparr>
          | Some start \<Rightarrow>
              if elements bp = [] then \<lparr>statusCode = Bad_NothingToDo, targets = []\<rparr>
              else if name_missing (last (elements bp)) then
                \<lparr>statusCode = Bad_BrowseNameInvalid, targets = []\<rparr>
              else if path_targets bn sp start (elements bp) = [] then
                \<lparr>statusCode = Bad_NoMatch, targets = []\<rparr>
              else \<lparr>statusCode = Good, targets = map sentinel (path_targets bn sp start (elements bp))\<rparr>)"
proof (cases "nodeid_index sp (startingNode bp)")
  case None
  then show ?thesis by (simp add: browsePath_status_order)
next
  case (Some start)
  show ?thesis
  proof (cases "elements bp = []")
    case True
    with Some show ?thesis by (simp add: browsePath_status_order)
  next
    case False
    then have "0 < length (elements bp)" by simp
    then have "explore_element rn bn sp (Some start) (elements bp) 0 [] =
                 Inr ([] @ map sentinel (path_targets bn sp start (drop 0 (elements bp))))"
      by (rule explore_element_path_targets [OF assms refl Some])
    with Some False show ?thesis by (simp add: browsePath_status_order)
  qed
qed

text \<open>
  The \<open>browseNodeByTargetName\<close> of the specification returns registered nodes only:
  it returns the target of a reference only when it has found the node registered
  under it.
\<close>

lemma browseNodeByTargetName_registered:
  "returns_registered (browseNodeByTargetName accepts sp) sp"
  by (auto simp: returns_registered_def browseNodeByTargetName_def split: option.splits)

text \<open>
  C2. When \<open>browseNodeByTargetName\<close> returns registered nodes only, \<open>browsePath\<close>
  returns a result for every browse path, and its status is \<open>Bad_NodeIdUnknown\<close> when no
  node is registered under the starting node; otherwise \<open>Bad_NothingToDo\<close> when the path
  has no element; otherwise \<open>Bad_BrowseNameInvalid\<close> when the name of the last element
  is absent or empty; otherwise \<open>Bad_NoMatch\<close> when the traversal produces no target;
  otherwise \<open>Good\<close>, with the targets of the traversal in its order.
\<close>

theorem browsePath_status_cascade:
  assumes "returns_registered bn sp"
  shows "browsePath rn bn sp bp =
     Inr (case nodeid_index sp (startingNode bp) of
            None \<Rightarrow> \<lparr>statusCode = Bad_NodeIdUnknown, targets = []\<rparr>
          | Some start \<Rightarrow>
              if elements bp = [] then \<lparr>statusCode = Bad_NothingToDo, targets = []\<rparr>
              else if name_missing (last (elements bp)) then
                \<lparr>statusCode = Bad_BrowseNameInvalid, targets = []\<rparr>
              else if path_targets bn sp start (elements bp) = [] then
                \<lparr>statusCode = Bad_NoMatch, targets = []\<rparr>
              else \<lparr>statusCode = Good, targets = map sentinel (path_targets bn sp start (elements bp))\<rparr>)"
  using assms by (rule browsePath_cascade)

theorem browsePath_status_cascade_witness:
  "returns_registered (browseNodeByTargetName any_reference space_b) space_b \<and>
   browsePath parse_numeric (browseNodeByTargetName any_reference space_b) space_b (path_of 7 [''A'']) =
     Inr \<lparr>statusCode = Bad_NodeIdUnknown, targets = []\<rparr> \<and>
   browsePath parse_numeric (browseNodeByTargetName any_reference space_b) space_b (path_of 84 []) =
     Inr \<lparr>statusCode = Bad_NothingToDo, targets = []\<rparr> \<and>
   browsePath parse_numeric (browseNodeByTargetName any_reference space_b) space_b (path_of 84 [''A'', []]) =
     Inr \<lparr>statusCode = Bad_BrowseNameInvalid, targets = []\<rparr> \<and>
   browsePath parse_numeric (browseNodeByTargetName any_reference space_b) space_b (path_of 84 [''A'', ''C'']) =
     Inr \<lparr>statusCode = Bad_NoMatch, targets = []\<rparr> \<and>
   browsePath parse_numeric (browseNodeByTargetName any_reference space_b) space_b (path_of 84 [''A'', ''B'']) =
     Inr \<lparr>statusCode = Good, targets = [\<lparr>targetId = makeNodeId 86, remainingPathIndex = 0xFFFFFFFF\<rparr>]\<rparr>"
proof -
  have r: "returns_registered (browseNodeByTargetName any_reference space_b) space_b"
    by (rule browseNodeByTargetName_registered)
  show ?thesis
    using r
    by (simp add: browsePath_status_cascade [OF r] space_b_index path_of_def name_missing_def
        browseNodeByTargetName_def any_reference_def organizes_def mk_node_def makeNodeId_def
        sentinel_def)
qed

subsection \<open>Dangling references\<close>







text \<open>
  C4. Whenever \<open>browsePath\<close> returns the status \<open>Good\<close>, every target of the result
  has the remaining path index \<open>0xFFFFFFFF\<close>.
\<close>

theorem browsePath_Good_sentinel:
  assumes "browsePath rn bn sp bp = Inr r" and "statusCode r = Good"
  shows "\<forall>t \<in> set (targets r). remainingPathIndex t = 0xFFFFFFFF"
proof -
  from assms obtain start res where
    ex: "explore_element rn bn sp (Some start) (elements bp) 0 [] = Inr res" and r: "targets r = res"
    by (auto simp: browsePath_status_order split: option.splits if_splits sum.splits)
  have "sentinel_only res"
    by (rule explore_element_sentinel [OF ex]) (simp add: sentinel_only_def)
  with r show ?thesis by (simp add: sentinel_only_def list_all_iff)
qed

theorem browsePath_Good_sentinel_witness:
  "browsePath parse_numeric (browseNodeByTargetName any_reference space_b) space_b (path_of 85 [''B'']) =
     Inr \<lparr>statusCode = Good, targets = [\<lparr>targetId = makeNodeId 86, remainingPathIndex = 0xFFFFFFFF\<rparr>]\<rparr> \<and>
   statusCode \<lparr>statusCode = Good, targets = [\<lparr>targetId = makeNodeId 86, remainingPathIndex = 0xFFFFFFFF\<rparr>]\<rparr> = Good \<and>
   list_all (\<lambda>t. remainingPathIndex t = 0xFFFFFFFF)
     (targets \<lparr>statusCode = Good, targets = [\<lparr>targetId = makeNodeId 86, remainingPathIndex = 0xFFFFFFFF\<rparr>]\<rparr>)"
proof -
  have h: "browsePath parse_numeric (browseNodeByTargetName any_reference space_b) space_b (path_of 85 [''B'']) =
     Inr \<lparr>statusCode = Good, targets = [\<lparr>targetId = makeNodeId 86, remainingPathIndex = 0xFFFFFFFF\<rparr>]\<rparr>"
    apply (simp add: browsePath_def findObject_NodeId space_b_index path_of_def name_missing_def)
    apply (simp add: explore_element.simps findObject_NodeId space_b_index browseNodeByTargetName_def
        any_reference_def organizes_def mk_node_def makeNodeId_def)
    done
  have g: "statusCode \<lparr>statusCode = Good, targets = [\<lparr>targetId = makeNodeId 86, remainingPathIndex = 0xFFFFFFFF\<rparr>]\<rparr> = Good"
    by simp
  show ?thesis using browsePath_Good_sentinel [OF h g] h g by (simp add: list_all_iff)
qed

subsection \<open>Registration keeps the index invariants\<close>

lemma registration_invariants_new: "registration_invariants new_AddressSpace"
  by (simp add: registration_invariants_def new_AddressSpace_def)

lemma registration_invariants_register:
  assumes "registration_invariants sp"
  shows "registration_invariants (snd (register sp object))"
  using assms
  unfolding registration_invariants_def register_def Let_def
  by (auto split: option.splits)

lemma registration_invariants_register_all:
  "registration_invariants sp \<Longrightarrow> registration_invariants (register_all sp objects)"
  unfolding register_all_def
  by (induction objects arbitrary: sp) (simp_all add: registration_invariants_register)

lemma space_r_invariants: "registration_invariants space_r"
  unfolding space_r_def
  by (rule registration_invariants_register_all [OF registration_invariants_new])

lemma space_r_no_proto_key: "no_proto_key space_r"
  by (simp add: no_proto_key_def space_r_maps)

subsection \<open>findReferenceType\<close>

text \<open>
  C5, as stated, fails: for the name \<open>i=999\<close>, under which nothing is registered,
  \<open>findReferenceType\<close> does not return absent; its assertion on the node found
  fails.
\<close>

theorem findReferenceType_unknown_id_counterexample:
  "nodeid_index new_AddressSpace (makeNodeId 999) = None \<and>
   parse_numeric ''i=999'' = Inr (makeNodeId 999) \<and>
   findReferenceType object_prototype_name parse_numeric new_AddressSpace ''i=999'' = Inl AssertionError \<and>
   findReferenceType object_prototype_name parse_numeric new_AddressSpace ''i=999'' \<noteq> Inr None"
  by (simp add: findReferenceType_def resolveNodeId_def parse_numeric_def findObject_NodeId
      new_AddressSpace_def is_digit_def digit_val_def digits_val_def)

text \<open>
  C5, amended. In an address space that satisfies the registration invariants and has
  no key \<open>__proto__\<close> in its reference type indices, and for a name that does not begin
  with \<open>ns=\<close>: a name that begins with \<open>i=\<close> is resolved as a node id, and the result
  is the node registered under that id when its class is \<open>ReferenceType\<close>, a failed
  assertion when there is no such node or it has another class, and the failure of the
  parser when the name does not parse; any other name gives the entry of the browse name
  index of reference types, and, when the index has no entry of that name, absent,
  unless the name is one every object inherits a value for (such as \<open>constructor\<close>),
  for which the assertion fails.
\<close>

theorem findReferenceType_cases:
  assumes "registration_invariants sp" and "no_proto_key sp" and "take 3 refType \<noteq> ''ns=''"
  shows "findReferenceType inherited rn sp refType =
     (if take 2 refType = ''i='' then
        (case rn refType of
           Inl e \<Rightarrow> Inl e
         | Inr nid \<Rightarrow>
             (case nodeid_index sp nid of
                None \<Rightarrow> Inl AssertionError
              | Some object \<Rightarrow>
                  if nodeClass object = ReferenceType then Inr (Some object) else Inl AssertionError))
      else
        (case referenceTypeMap sp refType of
           Some object \<Rightarrow> Inr (Some object)
         | None \<Rightarrow> if inherited refType then Inl AssertionError else Inr None))"
  using assms(1)
  by (auto simp: findReferenceType_def resolveNodeId_def findObject_NodeId registration_invariants_def
      js_get_def split: sum.splits option.splits)

theorem findReferenceType_cases_witness:
  "registration_invariants space_r \<and> no_proto_key space_r \<and>
   take 3 ''i=35'' \<noteq> ''ns='' \<and> take 3 ''Organizes'' \<noteq> ''ns='' \<and>
   findReferenceType object_prototype_name parse_numeric space_r ''i=35'' =
     Inr (Some (mk_reftype 35 ''Organizes'' ''OrganizedBy'')) \<and>
   findReferenceType object_prototype_name parse_numeric space_r ''Organizes'' =
     Inr (Some (mk_reftype 35 ''Organizes'' ''OrganizedBy'')) \<and>
   findReferenceType object_prototype_name parse_numeric space_r ''Missing'' = Inr None \<and>
   findReferenceType object_prototype_name parse_numeric space_r ''constructor'' = Inl AssertionError"
proof -
  have a: "take 3 ''i=35'' \<noteq> ''ns=''" by simp
  have b: "take 3 ''Organizes'' \<noteq> ''ns=''" by simp
  have c: "take 3 ''Missing'' \<noteq> ''ns=''" by simp
  have d: "take 3 ''constructor'' \<noteq> ''ns=''" by simp
  show ?thesis
    using findReferenceType_cases [OF space_r_invariants space_r_no_proto_key a, of object_prototype_name parse_numeric]
      findReferenceType_cases [OF space_r_invariants space_r_no_proto_key b, of object_prototype_name parse_numeric]
      findReferenceType_cases [OF space_r_invariants space_r_no_proto_key c, of object_prototype_name parse_numeric]
      findReferenceType_cases [OF space_r_invariants space_r_no_proto_key d, of object_prototype_name parse_numeric]
      space_r_invariants space_r_no_proto_key
    by (simp add: parse_numeric_35 space_r_maps mk_reftype_def object_prototype_name_examples)
qed

subsection \<open>normalizeReferenceType\<close>

text \<open>
  C6, as stated, fails. The address space holds the reference types \<open>A\<close> (inverse
  name \<open>B\<close>) and \<open>C\<close> (inverse name \<open>A\<close>); both registrations succeed and the
  space satisfies the invariants of registration. Normalizing \<open>B\<close> gives \<open>A\<close> with
  the direction flipped, and normalizing that result fails an assertion, since \<open>A\<close>
  is both a browse name and an inverse name.
\<close>

theorem normalizeReferenceType_not_idempotent_counterexample:
  "fst (register new_AddressSpace (mk_reftype 1 ''A'' ''B'')) = None \<and>
   fst (register (snd (register new_AddressSpace (mk_reftype 1 ''A'' ''B''))) (mk_reftype 2 ''C'' ''A'')) = None \<and>
   registration_invariants space_c \<and> inverse_leads_back space_c \<and>
   normalizeReferenceType object_prototype_name parse_numeric space_c
       \<lparr>referenceType = ''B'', isForward = JBool True\<rparr> =
     Inr \<lparr>referenceType = ''A'', isForward = JBool False\<rparr> \<and>
   normalizeReferenceType object_prototype_name parse_numeric space_c
       \<lparr>referenceType = ''A'', isForward = JBool False\<rparr> =
     Inl AssertionError"
proof -
  have "registration_invariants space_c"
    unfolding space_c_def
    by (rule registration_invariants_register_all [OF registration_invariants_new])
  moreover have "fst (register new_AddressSpace (mk_reftype 1 ''A'' ''B'')) = None \<and>
      fst (register (snd (register new_AddressSpace (mk_reftype 1 ''A'' ''B''))) (mk_reftype 2 ''C'' ''A'')) = None"
    by (simp add: register_def new_AddressSpace_def mk_reftype_def Let_def makeNodeId_def)
  moreover have "inverse_leads_back space_c"
    by (auto simp: inverse_leads_back_def space_c_maps mk_reftype_def split: if_splits)
  moreover have "normalizeReferenceType object_prototype_name parse_numeric space_c
       \<lparr>referenceType = ''B'', isForward = JBool True\<rparr> =
     Inr \<lparr>referenceType = ''A'', isForward = JBool False\<rparr>"
    by (simp add: normalizeReferenceType_def findReferenceType_def findReferenceTypeFromInverseName_def
        js_get_def space_c_maps mk_reftype_def object_prototype_name_examples)
  moreover have "normalizeReferenceType object_prototype_name parse_numeric space_c
       \<lparr>referenceType = ''A'', isForward = JBool False\<rparr> =
     Inl AssertionError"
    by (simp add: normalizeReferenceType_def findReferenceType_def findReferenceTypeFromInverseName_def
        js_get_def space_c_maps mk_reftype_def)
  ultimately show ?thesis by simp
qed

text \<open>
  A browse name that every object inherits a value for breaks idempotence in the same
  way: with the one reference type \<open>constructor\<close> (inverse name \<open>madeBy\<close>),
  normalizing \<open>madeBy\<close> gives \<open>constructor\<close>, and normalizing that reads the inherited
  \<open>constructor\<close> of the inverse name index and fails the assertion.
\<close>

lemma normalizeReferenceType_inherited_name:
  "normalizeReferenceType object_prototype_name parse_numeric space_k
       \<lparr>referenceType = ''madeBy'', isForward = JBool True\<rparr> =
     Inr \<lparr>referenceType = ''constructor'', isForward = JBool False\<rparr> \<and>
   normalizeReferenceType object_prototype_name parse_numeric space_k
       \<lparr>referenceType = ''constructor'', isForward = JBool False\<rparr> =
     Inl AssertionError"
  by (simp add: normalizeReferenceType_def findReferenceType_def findReferenceTypeFromInverseName_def
      js_get_def space_k_maps mk_reftype_def object_prototype_name_examples)

lemma isForward_default_id:
  "isForward p \<noteq> JNull \<Longrightarrow>
   p\<lparr>isForward := (if isForward p = JNull then JBool True else isForward p)\<rparr> = p"
  by (cases p) simp

lemma normalizeReferenceType_defaulted:
  assumes "isForward p \<noteq> JNull"
  shows "normalizeReferenceType inherited rn sp p =
     (case findReferenceType inherited rn sp (referenceType p) of
        Inl e \<Rightarrow> Inl e
      | Inr n1 \<Rightarrow>
          (case findReferenceTypeFromInverseName inherited sp (referenceType p) of
             Inl e \<Rightarrow> Inl e
           | Inr n2 \<Rightarrow>
               if n1 = None \<and> n2 = None then Inr p
               else if n1 \<noteq> None then (if n2 \<noteq> None then Inl AssertionError else Inr p)
               else (case n2 of
                       None \<Rightarrow> Inl AssertionError
                     | Some r \<Rightarrow> Inr (p\<lparr>referenceType := browseName r,
                                         isForward := JBool (js_not (isForward p))\<rparr>))))"
  unfolding normalizeReferenceType_def Let_def isForward_default_id [OF assms] by (rule refl)

text \<open>
  C6, amended. In an address space that satisfies the registration invariants, has no
  key \<open>__proto__\<close> in its reference type indices, and in which no reference type of the
  inverse name index has a browse name that the inverse name index answers to (as an
  inverse name, or as a name every object inherits a value for) or that begins with
  \<open>i=\<close>: whenever \<open>normalizeReferenceType\<close> returns a value, applying it to that
  value returns the same value.
\<close>

theorem normalizeReferenceType_idempotent:
  assumes inv: "registration_invariants sp"
    and proto: "no_proto_key sp"
    and apart: "names_apart inherited sp"
    and x: "normalizeReferenceType inherited rn sp x = Inr y"
  shows "normalizeReferenceType inherited rn sp y = Inr y"
proof -
  define x1 where "x1 = x\<lparr>isForward := (if isForward x = JNull then JBool True else isForward x)\<rparr>"
  have x1_fw: "isForward x1 \<noteq> JNull" by (simp add: x1_def)
  have x1_rt: "referenceType x1 = referenceType x" by (simp add: x1_def)
  from x obtain n1 n2 where
    n1: "findReferenceType inherited rn sp (referenceType x) = Inr n1" and
    n2: "findReferenceTypeFromInverseName inherited sp (referenceType x) = Inr n2"
    by (auto simp: normalizeReferenceType_def Let_def split: sum.splits)
  show ?thesis
  proof (cases "n1 = None \<and> n2 \<noteq> None")
    case False
    with x n1 n2 have y: "y = x1"
      by (auto simp: normalizeReferenceType_def Let_def x1_def split: if_splits)
    have "\<not> (n1 \<noteq> None \<and> n2 \<noteq> None)"
      using x n1 n2 by (auto simp: normalizeReferenceType_def Let_def split: if_splits)
    with False n1 n2 show ?thesis
      unfolding y by (auto simp: normalizeReferenceType_defaulted [OF x1_fw] x1_rt)
  next
    case True
    then obtain r where r: "n2 = Some r" and n1_none: "n1 = None" by auto
    from x n1 n2 r n1_none have y: "y = x1\<lparr>referenceType := browseName r, isForward := JBool (js_not (isForward x1))\<rparr>"
      by (simp add: normalizeReferenceType_def Let_def x1_def)
    have y_fw: "isForward y \<noteq> JNull" and y_rt: "referenceType y = browseName r"
      by (simp_all add: y)
    from n2 r have inv_r: "referenceTypeMapInv sp (referenceType x) = Some r"
      by (auto simp: findReferenceTypeFromInverseName_def js_get_def
          split: option.splits if_splits property.splits)
    from apart inv_r have no_inv: "js_get inherited (referenceTypeMapInv sp) (browseName r) = Missing"
      and not_id: "take 2 (browseName r) \<noteq> ''i=''"
      by (auto simp: names_apart_def)
    from inv inv_r have "referenceTypeMap sp (browseName r) \<noteq> None"
      unfolding registration_invariants_def by blast
    then obtain r' where r': "referenceTypeMap sp (browseName r) = Some r'"
      by auto
    with inv have "nodeClass r' = ReferenceType \<and> browseName r' = browseName r"
      unfolding registration_invariants_def by blast
    with r' not_id have f1: "findReferenceType inherited rn sp (browseName r) = Inr (Some r')"
      by (simp add: findReferenceType_def js_get_def)
    from no_inv have f2: "findReferenceTypeFromInverseName inherited sp (browseName r) = Inr None"
      by (simp add: findReferenceTypeFromInverseName_def)
    show ?thesis
      using f1 f2 by (simp add: normalizeReferenceType_defaulted [OF y_fw] y_rt)
  qed
qed

theorem normalizeReferenceType_idempotent_witness:
  "registration_invariants space_r \<and> no_proto_key space_r \<and>
   names_apart object_prototype_name space_r \<and>
   normalizeReferenceType object_prototype_name parse_numeric space_r
       \<lparr>referenceType = ''OrganizedBy'', isForward = JBool True\<rparr> =
     Inr \<lparr>referenceType = ''Organizes'', isForward = JBool False\<rparr> \<and>
   normalizeReferenceType object_prototype_name parse_numeric space_r
       \<lparr>referenceType = ''Organizes'', isForward = JBool False\<rparr> =
     Inr \<lparr>referenceType = ''Organizes'', isForward = JBool False\<rparr>"
proof -
  have a: "names_apart object_prototype_name space_r"
    by (auto simp: names_apart_def js_get_def space_r_maps mk_reftype_def
        object_prototype_name_examples split: if_splits)
  have n: "normalizeReferenceType object_prototype_name parse_numeric space_r
       \<lparr>referenceType = ''OrganizedBy'', isForward = JBool True\<rparr> =
     Inr \<lparr>referenceType = ''Organizes'', isForward = JBool False\<rparr>"
    by (simp add: normalizeReferenceType_def findReferenceType_def findReferenceTypeFromInverseName_def
        js_get_def space_r_maps mk_reftype_def object_prototype_name_examples)
  show ?thesis
    using normalizeReferenceType_idempotent [OF space_r_invariants space_r_no_proto_key a n]
      space_r_invariants space_r_no_proto_key a n
    by simp
qed

section \<open>Properties of the publish engine\<close>

lemma send_publish_request_funpow:
  "(send_publish_request ^^ n) w = w\<lparr>deferred := deferred w + n\<rparr>"
  by (induction n) (simp_all add: send_publish_request_def)

lemma registerSubscriptionCallback_ok:
  assumes "subscriptionIdFuncMap (engine w) sid = None"
  shows "registerSubscriptionCallback w sid (Num t) cb =
     (None, w\<lparr>engine := (engine w)\<lparr>activeSubscriptionCount := activeSubscriptionCount (engine w) + 1,
                                    subscriptionIdFuncMap := (subscriptionIdFuncMap (engine w))(sid \<mapsto> cb),
                                    timeoutHint := max (timeoutHint (engine w)) t\<rparr>,
               deferred := deferred w + 5\<rparr>)"
  using assms
  by (simp add: registerSubscriptionCallback_def Let_def send_publish_request_funpow
      send_publish_request_def publishRequestCountInPipeline_def)

lemma run_deferred_alive:
  assumes "session (engine w) \<noteq> None" and "0 \<le> nbPendingPublishRequests (engine w)"
  shows "nbPendingPublishRequests (engine (snd (run_deferred w))) + int (deferred (snd (run_deferred w))) =
           nbPendingPublishRequests (engine w) + int (deferred w) \<and>
         length (in_flight (snd (run_deferred w))) + deferred (snd (run_deferred w)) =
           length (in_flight w) + deferred w \<and>
         session (engine (snd (run_deferred w))) = session (engine w) \<and>
         subscriptionIdFuncMap (engine (snd (run_deferred w))) = subscriptionIdFuncMap (engine w) \<and>
         0 \<le> nbPendingPublishRequests (engine (snd (run_deferred w)))"
  using assms
  by (auto simp: run_deferred_def private_send_publish_request_def Let_def)

lemma pipeline_invariant:
  assumes "list_all register_or_deferred ops"
    and "distinct (registered_ids ops)"
    and "set (registered_ids ops) \<inter> dom (subscriptionIdFuncMap (engine w)) = {}"
    and "session (engine w) \<noteq> None"
    and "0 \<le> nbPendingPublishRequests (engine w)"
  shows "nbPendingPublishRequests (engine (run w ops)) + int (deferred (run w ops)) =
           nbPendingPublishRequests (engine w) + int (deferred w) +
           int (length (registered_ids ops)) * int publishRequestCountInPipeline \<and>
         length (in_flight (run w ops)) + deferred (run w ops) =
           length (in_flight w) + deferred w +
           length (registered_ids ops) * publishRequestCountInPipeline"
  using assms
proof (induction ops arbitrary: w)
  case Nil
  then show ?case by (simp add: run_def registered_ids_def)
next
  case (Cons op ops)
  have run_Cons: "run w (op # ops) = run (step w op) ops" by (simp add: run_def)
  from Cons.prems(1) have rest: "list_all register_or_deferred ops" by simp
  show ?case
  proof (cases op)
    case (Register sid hint cb)
    with Cons.prems(1) obtain t where hint: "hint = Num t" by (cases hint) auto
    from Cons.prems(3) Register have fresh: "subscriptionIdFuncMap (engine w) sid = None"
      by (auto simp: registered_ids_def)
    let ?w1 = "step w op"
    have w1: "?w1 = w\<lparr>engine := (engine w)\<lparr>activeSubscriptionCount := activeSubscriptionCount (engine w) + 1,
                                    subscriptionIdFuncMap := (subscriptionIdFuncMap (engine w))(sid \<mapsto> cb),
                                    timeoutHint := max (timeoutHint (engine w)) t\<rparr>,
               deferred := deferred w + 5\<rparr>"
      using Register hint registerSubscriptionCallback_ok [OF fresh] by simp
    have ids: "registered_ids (op # ops) = sid # registered_ids ops"
      using Register by (simp add: registered_ids_def)
    have d: "distinct (registered_ids ops)" and notin: "sid \<notin> set (registered_ids ops)"
      using Cons.prems(2) ids by simp_all
    have disj: "set (registered_ids ops) \<inter> dom (subscriptionIdFuncMap (engine ?w1)) = {}"
      using Cons.prems(3) ids notin by (auto simp: w1)
    have alive: "session (engine ?w1) \<noteq> None" using Cons.prems(4) by (simp add: w1)
    have nonneg: "0 \<le> nbPendingPublishRequests (engine ?w1)" using Cons.prems(5) by (simp add: w1)
    have "nbPendingPublishRequests (engine (run ?w1 ops)) + int (deferred (run ?w1 ops)) =
           nbPendingPublishRequests (engine ?w1) + int (deferred ?w1) +
           int (length (registered_ids ops)) * int publishRequestCountInPipeline \<and>
         length (in_flight (run ?w1 ops)) + deferred (run ?w1 ops) =
           length (in_flight ?w1) + deferred ?w1 +
           length (registered_ids ops) * publishRequestCountInPipeline"
      by (rule Cons.IH [OF rest d disj alive nonneg])
    then show ?thesis
      unfolding run_Cons ids by (simp add: w1 publishRequestCountInPipeline_def)
  next
    case RunDeferred
    let ?w1 = "step w op"
    have w1: "?w1 = snd (run_deferred w)" using RunDeferred by simp
    note rd = run_deferred_alive [OF Cons.prems(4,5)]
    have ids: "registered_ids (op # ops) = registered_ids ops"
      using RunDeferred by (simp add: registered_ids_def)
    have d: "distinct (registered_ids ops)" using Cons.prems(2) ids by simp
    have disj: "set (registered_ids ops) \<inter> dom (subscriptionIdFuncMap (engine ?w1)) = {}"
      using Cons.prems(3) ids rd by (simp add: w1)
    have alive: "session (engine ?w1) \<noteq> None" using Cons.prems(4) rd by (simp add: w1)
    have nonneg: "0 \<le> nbPendingPublishRequests (engine ?w1)" using rd by (simp add: w1)
    have "nbPendingPublishRequests (engine (run ?w1 ops)) + int (deferred (run ?w1 ops)) =
           nbPendingPublishRequests (engine ?w1) + int (deferred ?w1) +
           int (length (registered_ids ops)) * int publishRequestCountInPipeline \<and>
         length (in_flight (run ?w1 ops)) + deferred (run ?w1 ops) =
           length (in_flight ?w1) + deferred ?w1 +
           length (registered_ids ops) * publishRequestCountInPipeline"
      by (rule Cons.IH [OF rest d disj alive nonneg])
    then show ?thesis
      unfolding run_Cons ids using rd by (simp add: w1)
  qed (use Cons.prems(1) in simp_all)
qed

text \<open>
  C7. From a fresh engine, after any run that consists of registrations with distinct
  subscription ids (and finite timeout hints) and of queued sends running, in any order,
  and that leaves no queued send behind, the number of pending publish requests is the
  number of registrations times the pipeline depth 5, and that many publish requests
  have been given to \<open>session.publish\<close> and await their answer. No response arrives in
  such a run.
\<close>

theorem pipeline_after_registrations:
  assumes "list_all register_or_deferred ops"
    and "distinct (registered_ids ops)"
    and "deferred (run (new_Runtime sess) ops) = 0"
  shows "nbPendingPublishRequests (engine (run (new_Runtime sess) ops)) =
           int (length (registered_ids ops)) * int publishRequestCountInPipeline \<and>
         length (in_flight (run (new_Runtime sess) ops)) =
           length (registered_ids ops) * publishRequestCountInPipeline \<and>
         publishRequestCountInPipeline = 5"
proof -
  have "nbPendingPublishRequests (engine (run (new_Runtime sess) ops)) +
          int (deferred (run (new_Runtime sess) ops)) =
        nbPendingPublishRequests (engine (new_Runtime sess)) + int (deferred (new_Runtime sess)) +
          int (length (registered_ids ops)) * int publishRequestCountInPipeline \<and>
        length (in_flight (run (new_Runtime sess) ops)) + deferred (run (new_Runtime sess) ops) =
          length (in_flight (new_Runtime sess)) + deferred (new_Runtime sess) +
          length (registered_ids ops) * publishRequestCountInPipeline"
    by (rule pipeline_invariant [OF assms(1,2)])
      (simp_all add: new_Runtime_def new_ClientSidePublishEngine_def)
  with assms(3) show ?thesis
    by (simp add: new_Runtime_def new_ClientSidePublishEngine_def publishRequestCountInPipeline_def)
qed

lemma two_registrations_run:
  "nbPendingPublishRequests (engine (run (new_Runtime 0) two_registrations)) = 10 \<and>
   deferred (run (new_Runtime 0) two_registrations) = 0 \<and>
   map requestHeader_timeoutHint (in_flight (run (new_Runtime 0) two_registrations)) =
     [10000, 20000, 30000, 40000, 50000, 120000, 140000, 160000, 180000, 200000]"
  by (simp add: two_registrations_def run_def new_Runtime_def new_ClientSidePublishEngine_def
      registerSubscriptionCallback_def Let_def send_publish_request_def
      publishRequestCountInPipeline_def run_deferred_def private_send_publish_request_def
      numeral_eq_Suc)

theorem pipeline_after_registrations_witness:
  "list_all register_or_deferred two_registrations \<and>
   distinct (registered_ids two_registrations) \<and>
   deferred (run (new_Runtime 0) two_registrations) = 0 \<and>
   length (registered_ids two_registrations) = 2 \<and>
   nbPendingPublishRequests (engine (run (new_Runtime 0) two_registrations)) = 10 \<and>
   length (in_flight (run (new_Runtime 0) two_registrations)) = 10"
proof -
  have a: "list_all register_or_deferred two_registrations"
    by (simp add: two_registrations_def)
  have b: "distinct (registered_ids two_registrations)"
    by (simp add: two_registrations_def registered_ids_def)
  have c: "deferred (run (new_Runtime 0) two_registrations) = 0"
    using two_registrations_run by simp
  have d: "length (registered_ids two_registrations) = 2"
    by (simp add: two_registrations_def registered_ids_def)
  show ?thesis
    using pipeline_after_registrations [OF a b c] a b c d
    by (simp add: publishRequestCountInPipeline_def)
qed

subsection \<open>Termination\<close>

lemma step_terminated:
  assumes "session (engine w) = None"
  shows "session (engine (step w op)) = None \<and> calls (step w op) = calls w"
proof (cases op)
  case (Register sid hint cb)
  with assms show ?thesis
    by (cases hint)
      (simp_all add: registerSubscriptionCallback_def Let_def send_publish_request_funpow
        send_publish_request_def)
next
  case (Unregister sid)
  with assms show ?thesis by (simp add: unregisterSubscriptionCallback_def Let_def)
next
  case (Acknowledge sid seq)
  with assms show ?thesis by (simp add: acknowledge_notification_def)
next
  case (Cleanup sid)
  with assms show ?thesis by (simp add: cleanup_acknowledgment_for_subscription_def)
next
  case SendPublishRequest
  with assms show ?thesis by (simp add: send_publish_request_def)
next
  case Terminate
  with assms show ?thesis by (simp add: terminate_def)
next
  case RunDeferred
  with assms show ?thesis by (simp add: run_deferred_def Let_def)
next
  case (Deliver k response)
  with assms show ?thesis
    by (cases response)
      (simp_all add: deliver_def publish_callback_def receive_publish_response_def Let_def
        send_publish_request_def acknowledge_notification_def split: option.splits)
next
  case PrivateSendPublishRequest
  with assms show ?thesis by (simp add: private_send_publish_request_def)
next
  case (PrivateReceivePublishResponse response)
  with assms show ?thesis
    by (simp add: receive_publish_response_def Let_def acknowledge_notification_def
        split: option.splits)
qed

lemma run_terminated:
  "session (engine w) = None \<Longrightarrow>
   session (engine (run w ops)) = None \<and> calls (run w ops) = calls w"
  unfolding run_def
  by (induction ops arbitrary: w) (simp_all add: step_terminated)

text \<open>
  C8. Whatever happened before \<open>terminate\<close> and whatever happens after it (answers
  to requests that were in flight included), the subscription callbacks called by the
  end of the run are those that had been called when \<open>terminate\<close> was called: none
  is called afterwards.
\<close>

theorem no_callback_after_terminate:
  "calls (run w (before @ Terminate # after)) = calls (run w before)"
proof -
  have "run w (before @ Terminate # after) = run (terminate (run w before)) after"
    by (simp add: run_def)
  moreover have "session (engine (terminate (run w before))) = None"
    by (simp add: terminate_def)
  ultimately have "calls (run w (before @ Terminate # after)) = calls (terminate (run w before))"
    by (simp add: run_terminated)
  then show ?thesis by (simp add: terminate_def)
qed

lemma one_registration_run:
  "run (new_Runtime 0) one_registration =
     \<lparr>engine = \<lparr>session = Some 0, subscriptionAcknowledgements = [],
                subscriptionIdFuncMap = [7 \<mapsto> 3], timeoutHint = 10000,
                activeSubscriptionCount = 1, nbPendingPublishRequests = 1\<rparr>,
      deferred = 4,
      in_flight = [\<lparr>requestHeader_timeoutHint = 10000, request_subscriptionAcknowledgements = []\<rparr>],
      calls = []\<rparr>"
  by (simp add: one_registration_def run_def new_Runtime_def new_ClientSidePublishEngine_def
      registerSubscriptionCallback_def Let_def send_publish_request_def
      publishRequestCountInPipeline_def run_deferred_def private_send_publish_request_def
      numeral_eq_Suc)

theorem no_callback_after_terminate_witness:
  "calls (run (new_Runtime 0) (one_registration @ Terminate # [Deliver 0 (Some data_response)])) = [] \<and>
   calls (run (new_Runtime 0) (one_registration @ [Deliver 0 (Some data_response)])) = [(3, [1, 2], 99)]"
proof -
  have "calls (run (new_Runtime 0) (one_registration @ [Deliver 0 (Some data_response)])) =
          [(3, [1, 2], 99)]"
    using one_registration_run
    by (simp add: run_def deliver_def publish_callback_def receive_publish_response_def Let_def
        data_response_def data_of_def acknowledge_notification_def send_publish_request_def)
  moreover have "calls (run (new_Runtime 0) one_registration) = []"
    by (simp add: one_registration_run)
  ultimately show ?thesis
    using no_callback_after_terminate [of "new_Runtime 0" one_registration "[Deliver 0 (Some data_response)]"]
    by simp
qed

subsection \<open>Acknowledgements\<close>

text \<open>
  C9. \<open>_receive_publish_response\<close> appends the pair of the subscription id and the
  sequence number of the response to the acknowledgement queue exactly when the
  notification data of the response is not empty; when the data is empty or absent (a
  keep-alive), the queue is unchanged.
\<close>

theorem acknowledged_iff_notification_data:
  "((subscriptionAcknowledgements (engine (receive_publish_response w response)) =
       subscriptionAcknowledgements (engine w) @
         [(subscriptionId response, sequenceNumber (notificationMessage response))])
    = (\<exists>d. notificationData (notificationMessage response) = Some d \<and> d \<noteq> [])) \<and>
   (notificationData (notificationMessage response) = None \<or>
    notificationData (notificationMessage response) = Some [] \<longrightarrow>
      subscriptionAcknowledgements (engine (receive_publish_response w response)) =
        subscriptionAcknowledgements (engine w))"
  by (auto simp: receive_publish_response_def Let_def acknowledge_notification_def data_of_def
      split: option.splits)

theorem acknowledged_iff_notification_data_witness:
  "subscriptionAcknowledgements (engine (receive_publish_response (new_Runtime 0) data_response)) =
     [(7, 42)] \<and>
   notificationData (notificationMessage keep_alive_response) = None \<and>
   subscriptionAcknowledgements (engine (receive_publish_response (new_Runtime 0) keep_alive_response)) = []"
  using acknowledged_iff_notification_data [of "new_Runtime 0" data_response]
    acknowledged_iff_notification_data [of "new_Runtime 0" keep_alive_response]
  by (simp add: data_response_def keep_alive_response_def new_Runtime_def
      new_ClientSidePublishEngine_def)

text \<open>
  C10. A response with notification data that is received after \<open>terminate\<close> has
  been called, or for a subscription that has no callback, is still recorded in the
  acknowledgement queue; only the call of the callback is left out.
\<close>

theorem acknowledged_without_dispatch:
  assumes "\<exists>d. notificationData (notificationMessage response) = Some d \<and> d \<noteq> []"
    and "w = run w0 (before @ Terminate # after) \<or>
         subscriptionIdFuncMap (engine w) (subscriptionId response) = None"
  shows "subscriptionAcknowledgements (engine (receive_publish_response w response)) =
           subscriptionAcknowledgements (engine w) @
             [(subscriptionId response, sequenceNumber (notificationMessage response))] \<and>
         calls (receive_publish_response w response) = calls w"
proof -
  have "run w0 (before @ Terminate # after) = run (terminate (run w0 before)) after"
    by (simp add: run_def)
  moreover have "session (engine (terminate (run w0 before))) = None"
    by (simp add: terminate_def)
  ultimately have "session (engine (run w0 (before @ Terminate # after))) = None"
    by (simp add: run_terminated)
  with assms(2) have "session (engine w) = None \<or>
      subscriptionIdFuncMap (engine w) (subscriptionId response) = None"
    by auto
  with assms(1) show ?thesis
    by (auto simp: receive_publish_response_def Let_def acknowledge_notification_def data_of_def
        split: option.splits)
qed

theorem acknowledged_without_dispatch_witness:
  "subscriptionIdFuncMap (engine (run (new_Runtime 0) (one_registration @ Terminate # []))) 7 = Some 3 \<and>
   subscriptionAcknowledgements
     (engine (receive_publish_response (run (new_Runtime 0) (one_registration @ Terminate # [])) data_response)) =
     [(7, 42)] \<and>
   calls (receive_publish_response (run (new_Runtime 0) (one_registration @ Terminate # [])) data_response) = []"
proof -
  have d: "\<exists>d. notificationData (notificationMessage data_response) = Some d \<and> d \<noteq> []"
    by (simp add: data_response_def)
  have t: "run (new_Runtime 0) (one_registration @ Terminate # []) =
           run (new_Runtime 0) (one_registration @ Terminate # []) \<or>
           subscriptionIdFuncMap (engine (run (new_Runtime 0) (one_registration @ Terminate # [])))
             (subscriptionId data_response) = None"
    by simp
  have r: "run (new_Runtime 0) (one_registration @ Terminate # []) =
           terminate (run (new_Runtime 0) one_registration)"
    by (simp add: run_def)
  show ?thesis
    using acknowledged_without_dispatch [OF d t]
    by (simp add: r one_registration_run terminate_def data_response_def)
qed

end
